theory Spec2Isabelle
  imports Main "HOL-Library.Word"
begin

section \<open>Operating-system identity query (os\_info\_windows.cpp)\<close>

text \<open>
  A shallow embedding of \<^verbatim>\<open>src/system/OS_info/os_info_windows.cpp\<close>. The file consists of
  four static resolvers and the exported aggregator \<^verbatim>\<open>iware::system::OS_info\<close>. Every
  foreign call (COM, registry, \<^verbatim>\<open>ntdll\<close>) only reads the machine, so the machine is a
  value that the functions receive; what a function does besides returning a value
  (which resolver runs, which value is queried, which resource is taken and given back)
  is written into an event trace that it returns next to its result.
\<close>

subsection \<open>Machine integers, strings and results\<close>

type_synonym DWORD = "32 word"
type_synonym HRESULT = "32 word"

definition NUL :: char where
  "NUL = CHR 0x00"

text \<open>
  Modelled from the spec: the structure \<^verbatim>\<open>OS_info_t\<close>, declared in \<^verbatim>\<open>infoware/system.hpp\<close>,
  which is not among the sources. The fields are the ones of the specification's data
  model, in the order in which the aggregator fills them: two strings and four unsigned
  integers. The fifth is the kernel-reported build (\<^verbatim>\<open>dwBuildNumber\<close>), named
  \<open>kernel_build\<close> here because the file has a function \<^verbatim>\<open>build_number\<close>; the sixth is
  the result of that function.
\<close>

record OS_info_t =
  family_name :: string
  full_name :: string
  major_version :: DWORD
  minor_version :: DWORD
  kernel_build :: DWORD
  patch_number :: DWORD

text \<open>The three fields of \<^verbatim>\<open>RTL_OSVERSIONINFOW\<close> that the aggregator reads.\<close>

record RTL_OSVERSIONINFOW =
  dwMajorVersion :: DWORD
  dwMinorVersion :: DWORD
  dwBuildNumber :: DWORD

subsection \<open>Traces and scoped release\<close>

datatype resource =
    ComLibrary
  | WbemLocator
  | WbemServices
  | EnumWbemClassObject
  | WbemClassObject nat
  | VariantBox nat
  | RegistryKey

datatype event =
    Call string
  | Query string
  | Acquire resource
  | Release resource

type_synonym 'a traced = "'a \<times> event list"

text \<open>
  Modelled from the spec: the guards \<^verbatim>\<open>quickscope_wrapper\<close> (\<^verbatim>\<open>infoware/detail/scope.hpp\<close>) and
  \<^verbatim>\<open>release_deleter\<close> (\<^verbatim>\<open>infoware/detail/memory.hpp\<close>), which are not among the sources; the
  specification calls them scoped acquisition with guaranteed release. A
  \<^verbatim>\<open>quickscope_wrapper\<close> runs its function when the enclosing scope is left, and a
  \<^verbatim>\<open>std::unique_ptr\<close> with \<^verbatim>\<open>release_deleter\<close> calls \<^verbatim>\<open>Release\<close> on its pointer there; guards
  of one scope run in the reverse order of their construction. \<open>scope before after body\<close> is the rest
  of a block after a guard has been constructed: \<open>before\<close> is what happened when the
  guard was set up, \<open>after\<close> what the guard does on every way out of \<open>body\<close>.
\<close>

definition scope :: "event list \<Rightarrow> event list \<Rightarrow> 'a traced \<Rightarrow> 'a traced" where
  "scope before after body = (fst body, before @ snd body @ after)"

subsection \<open>The standard library: \<^verbatim>\<open>std::string::find\<close>, \<^verbatim>\<open>strtok_r\<close>, \<^verbatim>\<open>strtoul\<close>\<close>

text \<open>
  \<^verbatim>\<open>std::string::find\<close>: the first position at which the pattern occurs, \<open>None\<close> for
  \<^verbatim>\<open>npos\<close>.
\<close>

fun find_str :: "string \<Rightarrow> string \<Rightarrow> nat option" where
  "find_str pat [] = (if pat = [] then Some 0 else None)"
| "find_str pat (c # cs) =
     (if take (length pat) (c # cs) = pat then Some 0
      else map_option Suc (find_str pat cs))"

text \<open>
  A C string is the characters in front of the first terminator. \<^verbatim>\<open>&buildlabex[0]\<close> is
  read as one by \<^verbatim>\<open>strtok_r\<close>; a \<^verbatim>\<open>std::string\<close> of size \<open>n\<close> always has a terminator at
  index \<open>n\<close>, so the view ends there at the latest.
\<close>

definition c_str :: "string \<Rightarrow> string" where
  "c_str s = takeWhile (\<lambda>c. c \<noteq> NUL) s"

text \<open>
  \<^verbatim>\<open>strtok_r(s, delim, &ctx)\<close> on the C string that \<open>s\<close> points to: skip leading
  delimiters; at the terminator there is no token; otherwise the token runs up to the
  next delimiter, which is overwritten by a terminator, and the context points behind
  it (or at the terminator when the token ended the string). A call with \<^verbatim>\<open>nullptr\<close>
  continues at the context. The result is the token and the new context.
\<close>

definition strtok_r :: "string \<Rightarrow> string \<Rightarrow> string option \<times> string" where
  "strtok_r s delim =
     (let s1 = dropWhile (\<lambda>c. c \<in> set delim) s
      in if s1 = [] then (None, s1)
         else let token = takeWhile (\<lambda>c. c \<notin> set delim) s1;
                  rest = dropWhile (\<lambda>c. c \<notin> set delim) s1
              in (Some token, if rest = [] then rest else tl rest))"

definition isspace :: "char \<Rightarrow> bool" where
  "isspace c = (c \<in> set [CHR 0x20, CHR 0x09, CHR 0x0A, CHR 0x0B, CHR 0x0C, CHR 0x0D])"

definition isdigit :: "char \<Rightarrow> bool" where
  "isdigit c = (48 \<le> (of_char c :: nat) \<and> (of_char c :: nat) \<le> 57)"

definition digit_value :: "char \<Rightarrow> nat" where
  "digit_value c = of_char c - 48"

text \<open>
  \<^verbatim>\<open>std::strtoul(token, nullptr, 10)\<close> where \<^verbatim>\<open>unsigned long\<close> has 32 bits (the file is
  compiled under \<^verbatim>\<open>_WIN32\<close> only): white space, an optional sign, then decimal digits;
  no digits give 0, a value that does not fit gives \<^verbatim>\<open>ULONG_MAX\<close>, and a minus sign
  negates the value in the unsigned type.
\<close>

definition strtoul :: "string \<Rightarrow> DWORD" where
  "strtoul s =
     (let s1 = dropWhile isspace s;
          neg = (s1 \<noteq> [] \<and> hd s1 = CHR ''-'');
          s2 = (if s1 \<noteq> [] \<and> (hd s1 = CHR ''-'' \<or> hd s1 = CHR ''+'') then tl s1 else s1);
          n = foldl (\<lambda>acc c. 10 * acc + digit_value c) 0 (takeWhile isdigit s2)
      in if n > 4294967295 then 0xFFFFFFFF
         else if neg then - of_nat n
         else of_nat n)"

subsection \<open>The registry\<close>

text \<open>
  A stored value is a \<^verbatim>\<open>REG_DWORD\<close> or a \<^verbatim>\<open>REG_SZ\<close>, the latter with exactly the bytes that
  were stored (a terminator is part of them if it was stored). \<open>reg_data\<close> is the data
  as bytes, little-endian for a number.
\<close>

datatype reg_value = REG_DWORD DWORD | REG_SZ string

definition dword_bytes :: "DWORD \<Rightarrow> string" where
  "dword_bytes w =
     (let n = unat w
      in [char_of n, char_of (n div 256), char_of (n div 65536), char_of (n div 16777216)])"

definition bytes_dword :: "string \<Rightarrow> DWORD" where
  "bytes_dword bs = of_nat (foldr (\<lambda>b acc. of_char b + 256 * acc) bs 0)"

fun reg_data :: "reg_value \<Rightarrow> string" where
  "reg_data (REG_DWORD w) = dword_bytes w"
| "reg_data (REG_SZ s) = s"

type_synonym HKEY = "string \<rightharpoonup> reg_value"

definition CurrentVersion :: string where
  "CurrentVersion = ''Software'' @ [CHR 0x5C] @ ''Microsoft'' @ [CHR 0x5C] @ ''Windows NT''
     @ [CHR 0x5C] @ ''CurrentVersion''"

text \<open>
  \<^verbatim>\<open>RegQueryValueExA(hkey, name, nullptr, nullptr, lpData, &size)\<close>. The second argument
  of the model is the capacity of the buffer behind \<^verbatim>\<open>lpData\<close>, \<open>None\<close> for
  \<^verbatim>\<open>nullptr\<close>. \<open>None\<close> is a non-zero status (the value does not exist, or the buffer is
  too small); \<open>Some (bytes, size)\<close> is \<^verbatim>\<open>ERROR_SUCCESS\<close> with the bytes written to the
  buffer (none without a buffer) and the size stored through the last argument.
\<close>

definition RegQueryValueExA :: "HKEY \<Rightarrow> string \<Rightarrow> nat option \<Rightarrow> (string \<times> nat) option" where
  "RegQueryValueExA hkey name lpData =
     (case hkey name of
        None \<Rightarrow> None
      | Some v \<Rightarrow>
          (case lpData of
             None \<Rightarrow> Some ([], length (reg_data v))
           | Some capacity \<Rightarrow>
               if length (reg_data v) \<le> capacity then Some (reg_data v, length (reg_data v))
               else None))"

text \<open>The bytes of a buffer after a successful query wrote \<open>written\<close> to its front.\<close>

definition fill :: "string \<Rightarrow> string \<Rightarrow> string" where
  "fill buffer written = written @ drop (length written) buffer"

subsection \<open>The machine\<close>

text \<open>
  What the aggregator and the registry resolvers read: the modules loaded into the
  process with their exported functions (only \<^verbatim>\<open>RtlGetVersion\<close> matters, a function that
  fills the structure it is given), the keys under \<^verbatim>\<open>HKEY_LOCAL_MACHINE\<close> that can be
  opened for reading, and the string the legacy resolver \<^verbatim>\<open>version_name()\<close> returns. That
  function is called by the aggregator and is not defined in the file, so its result is
  a parameter of the machine; it takes no argument and signals failure by the empty
  string.
\<close>

type_synonym RtlGetVersion_t = "RTL_OSVERSIONINFOW \<Rightarrow> RTL_OSVERSIONINFOW"

record machine =
  modules :: "string \<rightharpoonup> (string \<rightharpoonup> RtlGetVersion_t)"
  hklm :: "string \<rightharpoonup> HKEY"
  legacy_name :: string

definition GetModuleHandleA :: "machine \<Rightarrow> string \<Rightarrow> (string \<rightharpoonup> RtlGetVersion_t) option" where
  "GetModuleHandleA m name = modules m name"

definition GetProcAddress :: "(string \<rightharpoonup> RtlGetVersion_t) \<Rightarrow> string \<Rightarrow> RtlGetVersion_t option" where
  "GetProcAddress hmodule name = hmodule name"

text \<open>\<^verbatim>\<open>RegOpenKeyExA(HKEY_LOCAL_MACHINE, path, 0, KEY_READ, &hkey)\<close>: \<open>None\<close> is a non-zero
  status, with \<^verbatim>\<open>hkey\<close> left null.\<close>

definition RegOpenKeyExA :: "machine \<Rightarrow> string \<Rightarrow> HKEY option" where
  "RegOpenKeyExA m path = hklm m path"

definition version_name :: "machine \<Rightarrow> string traced" where
  "version_name m = (legacy_name m, [Call ''version_name''])"

subsection \<open>\<^verbatim>\<open>build_number\<close> (lines 85 to 111)\<close>

text \<open>
  The function constructs two guards on the key handle: one in line 87, before the key
  is opened, which closes the handle if it is not null when the function is left, and
  one in line 91, after the key has been opened, which closes it unconditionally. The
  handle is null at the end exactly when the key could not be opened.
\<close>

definition build_number :: "machine \<Rightarrow> DWORD traced" where
  "build_number m =
     (let hkey = RegOpenKeyExA m CurrentVersion
      in scope [Call ''build_number'']
           (if hkey \<noteq> None then [Release RegistryKey] else [])
           (case hkey of
              None \<Rightarrow> (0, [])
            | Some key \<Rightarrow>
                scope [Acquire RegistryKey] [Release RegistryKey]
                  (case RegQueryValueExA key ''UBR'' (Some 4) of
                     Some (written, ubr_size) \<Rightarrow>
                       (bytes_dword (fill (dword_bytes 0) written), [Query ''UBR''])
                   | None \<Rightarrow>
                       (case RegQueryValueExA key ''BuildLabEx'' None of
                          None \<Rightarrow> (0, [Query ''UBR'', Query ''BuildLabEx''])
                        | Some (_, buildlabex_size) \<Rightarrow>
                            (case RegQueryValueExA key ''BuildLabEx'' (Some buildlabex_size) of
                               None \<Rightarrow>
                                 (0, [Query ''UBR'', Query ''BuildLabEx'', Query ''BuildLabEx''])
                             | Some (written, _) \<Rightarrow>
                                 (let buildlabex = fill (replicate buildlabex_size NUL) written;
                                      (token, ctx) = strtok_r (c_str buildlabex) ''.'';
                                      (token, ctx) = strtok_r ctx ''.''
                                  in (case token of None \<Rightarrow> 0 | Some t \<Rightarrow> strtoul t,
                                      [Query ''UBR'', Query ''BuildLabEx'',
                                       Query ''BuildLabEx''])))))))"

subsection \<open>\<^verbatim>\<open>version_name_reg\<close> (lines 113 to 127)\<close>

definition version_name_reg :: "machine \<Rightarrow> string traced" where
  "version_name_reg m =
     scope [Call ''version_name_reg''] []
       (case RegOpenKeyExA m CurrentVersion of
          None \<Rightarrow> ([], [])
        | Some hkey \<Rightarrow>
            scope [Acquire RegistryKey] [Release RegistryKey]
              (case RegQueryValueExA hkey ''ProductName'' None of
                 None \<Rightarrow> ([], [Query ''ProductName''])
               | Some (_, vname_size) \<Rightarrow>
                   (case RegQueryValueExA hkey ''ProductName'' (Some vname_size) of
                      None \<Rightarrow> ([], [Query ''ProductName'', Query ''ProductName''])
                    | Some (written, _) \<Rightarrow>
                        (fill (replicate vname_size NUL) written,
                         [Query ''ProductName'', Query ''ProductName'']))))"

subsection \<open>\<^verbatim>\<open>iware::system::OS_info\<close> (lines 131 to 170)\<close>

text \<open>
  The function pointer \<^verbatim>\<open>pRtlGetVersion\<close> is a static local: its initialiser (lines 135
  to 140) runs in the first call of the process and the pointer is kept. The static is
  the first argument, \<open>None\<close> before the first call, and is returned with the result.
\<close>

definition resolve_RtlGetVersion :: "machine \<Rightarrow> RtlGetVersion_t option" where
  "resolve_RtlGetVersion m =
     (case GetModuleHandleA m ''ntdll.dll'' of
        None \<Rightarrow> None
      | Some ntdllh \<Rightarrow> GetProcAddress ntdllh ''RtlGetVersion'')"

definition query_version :: "RtlGetVersion_t option option \<Rightarrow> machine \<Rightarrow> RTL_OSVERSIONINFOW" where
  "query_version static m =
     (let pRtlGetVersion = (case static of None \<Rightarrow> resolve_RtlGetVersion m | Some p \<Rightarrow> p);
          os_version_info = \<lparr>dwMajorVersion = 0, dwMinorVersion = 0, dwBuildNumber = 0\<rparr>
      in case pRtlGetVersion of
           None \<Rightarrow> os_version_info
         | Some f \<Rightarrow> f os_version_info)"

definition OS_info ::
    "RtlGetVersion_t option option \<Rightarrow> machine \<Rightarrow> OS_info_t traced \<times> RtlGetVersion_t option option" where
  "OS_info static m =
     (let pRtlGetVersion = (case static of None \<Rightarrow> resolve_RtlGetVersion m | Some p \<Rightarrow> p);
          os_version_info = query_version static m;
          (win_name, name_trace) =
            (if dwMajorVersion os_version_info < 10 then version_name m
             else
               let (win_name, reg_trace) = version_name_reg m
               in (if dwMajorVersion os_version_info = 10
                      \<and> dwMinorVersion os_version_info = 0
                      \<and> dwBuildNumber os_version_info \<ge> 22000
                   then (case find_str '' 10'' win_name of
                           None \<Rightarrow> win_name
                         | Some pos \<Rightarrow> win_name[pos + 2 := CHR ''1''])
                   else win_name,
                   reg_trace));
          (patch, patch_trace) = build_number m
      in ((\<lparr>family_name = ''Windows NT'',
            full_name = win_name,
            major_version = dwMajorVersion os_version_info,
            minor_version = dwMinorVersion os_version_info,
            kernel_build = dwBuildNumber os_version_info,
            patch_number = patch\<rparr>,
           Call ''OS_info'' # name_trace @ patch_trace),
          Some pRtlGetVersion))"

subsection \<open>\<^verbatim>\<open>version_name_wmi\<close> (lines 27 to 83)\<close>

text \<open>
  The management service as the resolver sees it: the status of each call it makes, and
  for the query the sequence of objects the enumerator hands out, each given by what
  its \<^verbatim>\<open>Name\<close> property holds in \<^verbatim>\<open>val.bstrVal\<close> after \<^verbatim>\<open>Get\<close>. \<^verbatim>\<open>narrowen_bstring\<close>
  (\<^verbatim>\<open>infoware/detail/winstring.hpp\<close>) converts such a value to a narrow string; it is not
  defined in the file and is a parameter here. \<^verbatim>\<open>Next\<close> reports no object once the
  sequence is exhausted.
\<close>

datatype COINIT = COINIT_MULTITHREADED | COINIT_APARTMENTTHREADED

record 'b management_service =
  CoInitializeEx :: "COINIT \<Rightarrow> HRESULT"
  CoInitializeSecurity :: HRESULT
  CoCreateInstance :: HRESULT
  ConnectServer :: HRESULT
  CoSetProxyBlanket :: HRESULT
  ExecQuery :: HRESULT
  enumerated :: "'b list"
  narrowen_bstring :: "'b \<Rightarrow> string"

text \<open>The macro \<^verbatim>\<open>FAILED(hr)\<close> is \<^verbatim>\<open>((HRESULT)(hr)) < 0\<close> on the signed 32-bit status.\<close>

definition FAILED :: "HRESULT \<Rightarrow> bool" where
  "FAILED hr = (sint hr < 0)"

definition RPC_E_CHANGED_MODE :: HRESULT where
  "RPC_E_CHANGED_MODE = 0x80010106"

definition RPC_E_TOO_LATE :: HRESULT where
  "RPC_E_TOO_LATE = 0x80010119"

text \<open>
  The loop of lines 63 to 77. The iterator pointer is not null, so the loop ends at the
  \<^verbatim>\<open>break\<close>, when \<^verbatim>\<open>Next\<close> returns no object. Each round owns the object and the
  variant; the guard of the variant is constructed last and runs first.
\<close>

fun query_loop :: "('b \<Rightarrow> string) \<Rightarrow> 'b list \<Rightarrow> nat \<Rightarrow> string \<Rightarrow> string traced" where
  "query_loop narrow [] i ret = (ret, [])"
| "query_loop narrow (val # vals) i ret =
     (let round = scope [Acquire (WbemClassObject i)] [Release (WbemClassObject i)]
                    (scope [Acquire (VariantBox i)] [Release (VariantBox i)]
                       (narrow val, []));
          later = query_loop narrow vals (Suc i) (fst round)
      in (fst later, snd round @ snd later))"

definition version_name_wmi :: "'b management_service \<Rightarrow> string traced" where
  "version_name_wmi w =
     scope [Call ''version_name_wmi''] []
       (let err = CoInitializeEx w COINIT_MULTITHREADED;
            err = (if err = RPC_E_CHANGED_MODE then CoInitializeEx w COINIT_APARTMENTTHREADED
                   else err)
        in if FAILED err then ([], [])
           else
             scope [Acquire ComLibrary] [Release ComLibrary]
               (if FAILED (CoInitializeSecurity w) \<and> CoInitializeSecurity w \<noteq> RPC_E_TOO_LATE
                then ([], [])
                else if FAILED (CoCreateInstance w) then ([], [])
                else
                  scope [Acquire WbemLocator] [Release WbemLocator]
                    (if FAILED (ConnectServer w) then ([], [])
                     else
                       scope [Acquire WbemServices] [Release WbemServices]
                         (if FAILED (CoSetProxyBlanket w) then ([], [])
                          else if FAILED (ExecQuery w) then ([], [])
                          else
                            scope [Acquire EnumWbemClassObject] [Release EnumWbemClassObject]
                              (let (ret, loop_trace) =
                                     query_loop (narrowen_bstring w) (enumerated w) 0 []
                               in (case find_str [CHR ''|''] ret of
                                     None \<Rightarrow> ret
                                   | Some sep \<Rightarrow> take sep ret,
                                   loop_trace))))))"

subsection \<open>Notions used to state the properties\<close>

text \<open>
  The resources held after a trace, starting from the ones in \<open>held\<close>: \<open>None\<close> if the
  trace takes a resource that is already held or gives back one that is not held.
\<close>

fun held_after :: "event list \<Rightarrow> resource list \<Rightarrow> resource list option" where
  "held_after [] held = Some held"
| "held_after (Acquire r # es) held =
     (if r \<in> set held then None else held_after es (r # held))"
| "held_after (Release r # es) held =
     (if r \<in> set held then held_after es (removeAll r held) else None)"
| "held_after (Call f # es) held = held_after es held"
| "held_after (Query v # es) held = held_after es held"

text \<open>
  The tokens of a string for one delimiter: the string is cut at every delimiter, and
  the pieces that are not empty are the tokens.
\<close>

primrec fields :: "char \<Rightarrow> string \<Rightarrow> string list" where
  "fields d [] = [[]]"
| "fields d (c # cs) =
     (if c = d then [] # fields d cs
      else (case fields d cs of [] \<Rightarrow> [[c]] | f # fs \<Rightarrow> (c # f) # fs))"

definition tokens :: "char \<Rightarrow> string \<Rightarrow> string list" where
  "tokens d s = filter (\<lambda>t. t \<noteq> []) (fields d s)"

text \<open>The management service answers every call of the resolver with success.\<close>

definition query_reached :: "'b management_service \<Rightarrow> bool" where
  "query_reached w =
     (\<not> FAILED (if CoInitializeEx w COINIT_MULTITHREADED = RPC_E_CHANGED_MODE
                 then CoInitializeEx w COINIT_APARTMENTTHREADED
                 else CoInitializeEx w COINIT_MULTITHREADED)
      \<and> (\<not> FAILED (CoInitializeSecurity w) \<or> CoInitializeSecurity w = RPC_E_TOO_LATE)
      \<and> \<not> FAILED (CoCreateInstance w)
      \<and> \<not> FAILED (ConnectServer w)
      \<and> \<not> FAILED (CoSetProxyBlanket w)
      \<and> \<not> FAILED (ExecQuery w))"

text \<open>Machines and services to run the functions on.\<close>

definition sample_machine ::
    "DWORD \<times> DWORD \<times> DWORD \<Rightarrow> (string \<times> reg_value) list \<Rightarrow> string \<Rightarrow> machine" where
  "sample_machine v vals legacy =
     \<lparr>modules = [''ntdll.dll'' \<mapsto> [''RtlGetVersion'' \<mapsto>
          (\<lambda>info. info\<lparr>dwMajorVersion := fst v, dwMinorVersion := fst (snd v),
                              dwBuildNumber := snd (snd v)\<rparr>)]],
      hklm = [CurrentVersion \<mapsto> map_of vals],
      legacy_name = legacy\<rparr>"

definition sample_service :: "HRESULT \<Rightarrow> HRESULT \<Rightarrow> string list \<Rightarrow> string management_service" where
  "sample_service connect query names =
     \<lparr>CoInitializeEx = (\<lambda>mode. 0),
      CoInitializeSecurity = 0,
      CoCreateInstance = 0,
      ConnectServer = connect,
      CoSetProxyBlanket = 0,
      ExecQuery = query,
      enumerated = names,
      narrowen_bstring = (\<lambda>s. s)\<rparr>"

section \<open>Properties\<close>

subsection \<open>Registry values\<close>

lemma nat_bytes:
  fixes n :: nat
  assumes "n < 4294967296"
  shows "n mod 256 + (256 * (n div 256 mod 256)
           + (65536 * (n div 65536 mod 256) + 16777216 * (n div 16777216))) = n"
proof -
  have d2: "n div 65536 = n div 256 div 256"
    by (simp add: div_mult2_eq)
  have d3: "n div 16777216 = n div 256 div 256 div 256"
    by (simp add: div_mult2_eq)
  have e1: "n = n mod 256 + 256 * (n div 256)"
    by simp
  have e2: "n div 256 = n div 256 mod 256 + 256 * (n div 256 div 256)"
    by simp
  have e3: "n div 256 div 256 = n div 256 div 256 mod 256 + 256 * (n div 256 div 256 div 256)"
    by simp
  show ?thesis
    unfolding d2 d3 using e1 e2 e3 by linarith
qed

lemma bytes_dword_bytes: "bytes_dword (dword_bytes w) = w"
proof -
  have "unat w < 4294967296"
    using unsigned_less [of w] by simp
  then have "foldr (\<lambda>b acc. of_char b + 256 * acc) (dword_bytes w) 0 = unat w"
    by (simp add: dword_bytes_def Let_def nat_bytes)
  then show ?thesis
    by (simp add: bytes_dword_def)
qed

lemma length_dword_bytes: "length (dword_bytes w) = 4"
  by (simp add: dword_bytes_def Let_def)

subsection \<open>The sample machines\<close>

lemma sample_query_version:
  "query_version None (sample_machine v vals legacy)
     = \<lparr>dwMajorVersion = fst v, dwMinorVersion = fst (snd v), dwBuildNumber = snd (snd v)\<rparr>"
  by (simp add: query_version_def resolve_RtlGetVersion_def GetModuleHandleA_def
      GetProcAddress_def sample_machine_def)

lemma sample_version_name_reg:
  "fst (version_name_reg (sample_machine v [(''ProductName'', REG_SZ s)] legacy)) = s"
  by (simp add: version_name_reg_def scope_def RegOpenKeyExA_def RegQueryValueExA_def
      fill_def sample_machine_def)

subsection \<open>The build-identifier resolver\<close>

text \<open>
  C7. Whenever the key can be opened and holds the numeric value \<^verbatim>\<open>UBR\<close>,
  \<^verbatim>\<open>build_number\<close> returns that number as it is, and \<^verbatim>\<open>BuildLabEx\<close> is never queried.
\<close>

theorem build_number_primary:
  assumes "RegOpenKeyExA m CurrentVersion = Some key"
    and "key ''UBR'' = Some (REG_DWORD ubr)"
  shows "fst (build_number m) = ubr \<and> Query ''BuildLabEx'' \<notin> set (snd (build_number m))"
  using assms
  by (simp add: build_number_def scope_def RegQueryValueExA_def fill_def
      length_dword_bytes bytes_dword_bytes)

theorem build_number_primary_witness:
  "fst (build_number (sample_machine (10, 0, 19045)
       [(''UBR'', REG_DWORD 345),
        (''BuildLabEx'', REG_SZ ''19041.1.amd64fre.vb_release.191206-1406'')] [])) = 345
   \<and> Query ''BuildLabEx'' \<notin> set (snd (build_number (sample_machine (10, 0, 19045)
       [(''UBR'', REG_DWORD 345),
        (''BuildLabEx'', REG_SZ ''19041.1.amd64fre.vb_release.191206-1406'')] [])))"
  using build_number_primary [of "sample_machine (10, 0, 19045)
       [(''UBR'', REG_DWORD 345),
        (''BuildLabEx'', REG_SZ ''19041.1.amd64fre.vb_release.191206-1406'')] []"
       "map_of [(''UBR'', REG_DWORD 345),
        (''BuildLabEx'', REG_SZ ''19041.1.amd64fre.vb_release.191206-1406'')]" 345]
  by (simp add: sample_machine_def RegOpenKeyExA_def)

text \<open>
  Both guards of \<^verbatim>\<open>build_number\<close> close the handle once the key has been opened, whatever
  the function does afterwards; when the key cannot be opened nothing is closed.
\<close>

lemma build_number_releases:
  assumes "RegOpenKeyExA m CurrentVersion = Some key"
  shows "count_list (snd (build_number m)) (Release RegistryKey) = 2"
  using assms
  by (simp add: build_number_def scope_def Let_def split: option.splits prod.splits)

lemma build_number_not_opened:
  assumes "RegOpenKeyExA m CurrentVersion = None"
  shows "build_number m = (0, [Call ''build_number''])"
  using assms
  by (simp add: build_number_def scope_def Let_def)

text \<open>
  C2. The claim is that the handle of an opened key is closed exactly once on every
  way out of \<^verbatim>\<open>build_number\<close>. On a machine whose key opens and holds \<^verbatim>\<open>UBR = 345\<close> the
  function closes the handle twice: first by the guard of line 91, then by the guard
  of line 87, whose test of the handle still succeeds.
\<close>

theorem build_number_closes_twice:
  "build_number (sample_machine (10, 0, 19045) [(''UBR'', REG_DWORD 345)] [])
     = (345, [Call ''build_number'', Acquire RegistryKey, Query ''UBR'',
              Release RegistryKey, Release RegistryKey])"
  by (simp add: build_number_def scope_def sample_machine_def RegOpenKeyExA_def
      RegQueryValueExA_def fill_def length_dword_bytes bytes_dword_bytes)

subsection \<open>The registry display-name resolver\<close>

text \<open>
  C10. When the value \<^verbatim>\<open>ProductName\<close> is stored with a trailing terminator,
  \<^verbatim>\<open>version_name_reg\<close> returns the stored bytes: the length of the result is the size the
  first query reports, and its last character is the terminator.
\<close>

theorem version_name_reg_keeps_terminator:
  assumes "RegOpenKeyExA m CurrentVersion = Some key"
    and "key ''ProductName'' = Some (REG_SZ (s @ [NUL]))"
  shows "fst (version_name_reg m) = s @ [NUL]
     \<and> RegQueryValueExA key ''ProductName'' None = Some ([], length (fst (version_name_reg m)))
     \<and> last (fst (version_name_reg m)) = NUL"
  using assms
  by (simp add: version_name_reg_def scope_def RegQueryValueExA_def fill_def)

theorem version_name_reg_keeps_terminator_witness:
  "fst (version_name_reg (sample_machine (10, 0, 19045)
       [(''ProductName'', REG_SZ (''Windows 10 Pro'' @ [NUL]))] [])) = ''Windows 10 Pro'' @ [NUL]
   \<and> length (fst (version_name_reg (sample_machine (10, 0, 19045)
       [(''ProductName'', REG_SZ (''Windows 10 Pro'' @ [NUL]))] []))) = 15
   \<and> last (fst (version_name_reg (sample_machine (10, 0, 19045)
       [(''ProductName'', REG_SZ (''Windows 10 Pro'' @ [NUL]))] []))) = NUL"
  using version_name_reg_keeps_terminator [of "sample_machine (10, 0, 19045)
       [(''ProductName'', REG_SZ (''Windows 10 Pro'' @ [NUL]))] []"
       "map_of [(''ProductName'', REG_SZ (''Windows 10 Pro'' @ [NUL]))]" "''Windows 10 Pro''"]
  by (simp add: sample_machine_def RegOpenKeyExA_def)

subsection \<open>Tokens of the build label\<close>

lemma fields_split:
  "fields d s = takeWhile (\<lambda>c. c \<noteq> d) s
     # (case dropWhile (\<lambda>c. c \<noteq> d) s of [] \<Rightarrow> [] | x # r \<Rightarrow> fields d r)"
  by (induction s) (auto split: list.splits)

lemma tokens_Nil [simp]: "tokens d [] = []"
  by (simp add: tokens_def)

lemma tokens_skip_delimiter [simp]: "tokens d (d # s) = tokens d s"
  by (simp add: tokens_def)

lemma tokens_dropWhile: "tokens d (dropWhile (\<lambda>c. c = d) s) = tokens d s"
  by (induction s) simp_all

lemma tokens_first:
  assumes "s \<noteq> []" and "hd s \<noteq> d"
  shows "tokens d s = takeWhile (\<lambda>c. c \<noteq> d) s
     # tokens d (if dropWhile (\<lambda>c. c \<noteq> d) s = [] then dropWhile (\<lambda>c. c \<noteq> d) s
                 else tl (dropWhile (\<lambda>c. c \<noteq> d) s))"
proof -
  define r where "r = dropWhile (\<lambda>c. c \<noteq> d) s"
  have ne: "takeWhile (\<lambda>c. c \<noteq> d) s \<noteq> []"
    using assms by (cases s) auto
  have "fields d s = takeWhile (\<lambda>c. c \<noteq> d) s # (case r of [] \<Rightarrow> [] | x # r' \<Rightarrow> fields d r')"
    unfolding r_def by (rule fields_split)
  then have "tokens d s = takeWhile (\<lambda>c. c \<noteq> d) s # tokens d (if r = [] then r else tl r)"
    using ne by (cases r) (simp_all add: tokens_def)
  then show ?thesis
    unfolding r_def .
qed

lemma strtok_r_tokens:
  "fst (strtok_r s [d]) = (case tokens d s of [] \<Rightarrow> None | t # ts \<Rightarrow> Some t)
   \<and> tokens d (snd (strtok_r s [d])) = tl (tokens d s)"
proof (cases "dropWhile (\<lambda>c. c = d) s = []")
  case True
  have "tokens d s = tokens d (dropWhile (\<lambda>c. c = d) s)"
    by (rule tokens_dropWhile [symmetric])
  also have "\<dots> = []"
    by (simp only: True tokens_Nil)
  finally have "tokens d s = []" .
  with True show ?thesis
    by (simp add: strtok_r_def tokens_dropWhile)
next
  case False
  define s1 where "s1 = dropWhile (\<lambda>c. c = d) s"
  define tok where "tok = takeWhile (\<lambda>c. c \<noteq> d) s1"
  define ctx where "ctx = (if dropWhile (\<lambda>c. c \<noteq> d) s1 = [] then dropWhile (\<lambda>c. c \<noteq> d) s1
                           else tl (dropWhile (\<lambda>c. c \<noteq> d) s1))"
  have p1: "(\<lambda>c. c \<in> set [d]) = (\<lambda>c. c = d)"
    by auto
  have p2: "(\<lambda>c. c \<notin> set [d]) = (\<lambda>c. c \<noteq> d)"
    by auto
  have st: "strtok_r s [d] = (Some tok, ctx)"
    by (simp only: strtok_r_def Let_def p1 p2 False if_False tok_def ctx_def s1_def)
  have "s1 \<noteq> []"
    unfolding s1_def by (rule False)
  moreover have "hd s1 \<noteq> d"
    unfolding s1_def using False hd_dropWhile [of "\<lambda>c. c = d" s] by simp
  ultimately have a: "tokens d s1 = tok # tokens d ctx"
    unfolding tok_def ctx_def by (rule tokens_first)
  have b: "tokens d s1 = tokens d s"
    unfolding s1_def by (rule tokens_dropWhile)
  have tk: "tokens d s = tok # tokens d ctx"
    using a unfolding b .
  show ?thesis
    by (simp only: st tk fst_conv snd_conv list.case list.sel)
qed

lemma second_token:
  "fst (strtok_r (snd (strtok_r s [d])) [d])
     = (case tokens d s of t1 # t2 # ts \<Rightarrow> Some t2 | _ \<Rightarrow> None)"
proof -
  have "fst (strtok_r (snd (strtok_r s [d])) [d])
      = (case tl (tokens d s) of [] \<Rightarrow> None | t # ts \<Rightarrow> Some t)"
    using strtok_r_tokens [of "snd (strtok_r s [d])" d] strtok_r_tokens [of s d] by simp
  then show ?thesis
    by (simp split: list.splits)
qed

text \<open>
  C6. When the key holds no \<^verbatim>\<open>UBR\<close> but holds \<^verbatim>\<open>BuildLabEx\<close>, \<^verbatim>\<open>build_number\<close> cuts the
  stored string (up to its first terminator) into tokens at the dots and returns
  \<^verbatim>\<open>strtoul\<close> of the second token, and 0 when there are fewer than two tokens.
\<close>

theorem build_number_fallback:
  assumes "RegOpenKeyExA m CurrentVersion = Some key"
    and "key ''UBR'' = None"
    and "key ''BuildLabEx'' = Some v"
  shows "fst (build_number m)
     = (case tokens CHR ''.'' (c_str (reg_data v)) of t1 # t2 # ts \<Rightarrow> strtoul t2 | _ \<Rightarrow> 0)"
proof -
  have "fst (build_number m)
      = (case fst (strtok_r (snd (strtok_r (c_str (reg_data v)) ''.'')) ''.'') of
           None \<Rightarrow> 0 | Some t \<Rightarrow> strtoul t)"
    using assms
    by (simp add: build_number_def scope_def RegQueryValueExA_def fill_def Let_def
        case_prod_unfold)
  then show ?thesis
    by (simp add: second_token split: list.splits)
qed

theorem build_number_fallback_witness:
  "fst (build_number (sample_machine (6, 3, 9600)
      [(''BuildLabEx'', REG_SZ ''22000.1.amd64fre.co_release.210604-1628'')] [])) = 1
   \<and> fst (build_number (sample_machine (6, 3, 9600) [(''BuildLabEx'', REG_SZ ''22000'')] [])) = 0"
proof -
  have "tokens CHR ''.'' (c_str ''22000.1.amd64fre.co_release.210604-1628'')
      = [''22000'', ''1'', ''amd64fre'', ''co_release'', ''210604-1628'']"
    by (simp add: tokens_def c_str_def NUL_def)
  moreover have "strtoul ''1'' = 1"
    by (simp add: strtoul_def isspace_def isdigit_def digit_value_def)
  moreover have "tokens CHR ''.'' (c_str ''22000'') = [''22000'']"
    by (simp add: tokens_def c_str_def NUL_def)
  ultimately show ?thesis
    using build_number_fallback [of "sample_machine (6, 3, 9600)
        [(''BuildLabEx'', REG_SZ ''22000.1.amd64fre.co_release.210604-1628'')] []"
        "map_of [(''BuildLabEx'', REG_SZ ''22000.1.amd64fre.co_release.210604-1628'')]"
        "REG_SZ ''22000.1.amd64fre.co_release.210604-1628''"]
      build_number_fallback [of "sample_machine (6, 3, 9600) [(''BuildLabEx'', REG_SZ ''22000'')] []"
        "map_of [(''BuildLabEx'', REG_SZ ''22000'')]" "REG_SZ ''22000''"]
    by (simp add: sample_machine_def RegOpenKeyExA_def)
qed

subsection \<open>The management-interface resolver\<close>

lemma held_after_append:
  "held_after (xs @ ys) h = (case held_after xs h of None \<Rightarrow> None | Some h' \<Rightarrow> held_after ys h')"
  by (induction xs h rule: held_after.induct) auto

lemma query_loop_balanced:
  assumes "\<And>j. i \<le> j \<Longrightarrow> WbemClassObject j \<notin> set h \<and> VariantBox j \<notin> set h"
  shows "held_after (snd (query_loop narrow vals i ret)) h = Some h"
  using assms
proof (induction vals arbitrary: i ret)
  case Nil
  then show ?case by simp
next
  case (Cons val vals)
  have here: "WbemClassObject i \<notin> set h" "VariantBox i \<notin> set h"
    using Cons.prems [of i] by simp_all
  have later: "held_after (snd (query_loop narrow vals (Suc i) (narrow val))) h = Some h"
    by (rule Cons.IH) (use Cons.prems in simp)
  show ?case
    using here later by (simp add: scope_def Let_def held_after_append)
qed

lemma query_loop_result:
  "fst (query_loop narrow vals i ret) = (if vals = [] then ret else narrow (last vals))"
  by (induction vals arbitrary: i ret) (simp_all add: scope_def Let_def)

text \<open>
  C4. On every way out of \<^verbatim>\<open>version_name_wmi\<close>, the early returns included, whatever
  was acquired up to there (the COM library, the locator, the service connection, the
  query iterator, the object and the variant of each round of the loop) has been
  released when the function returns: replaying the trace from no resource held ends
  with no resource held, and never releases what is not held.
\<close>

theorem version_name_wmi_releases_all:
  "held_after (snd (version_name_wmi w)) [] = Some []"
proof -
  have loop: "held_after (snd (query_loop (narrowen_bstring w) (enumerated w) 0 [])) h = Some h"
    if "h = [EnumWbemClassObject, WbemServices, WbemLocator, ComLibrary]" for h
    by (rule query_loop_balanced) (simp add: that)
  show ?thesis
    using loop
    by (simp add: version_name_wmi_def scope_def Let_def held_after_append case_prod_unfold)
qed

theorem version_name_wmi_releases_all_witness:
  "held_after (snd (version_name_wmi (sample_service 0 0 [''Microsoft Windows 10 Pro'']))) [] = Some []
   \<and> held_after (snd (version_name_wmi (sample_service 0 0x80041003 []))) [] = Some []
   \<and> held_after (snd (version_name_wmi (sample_service 0x800706BA 0 []))) [] = Some []"
  using version_name_wmi_releases_all [of "sample_service 0 0 [''Microsoft Windows 10 Pro'']"]
    version_name_wmi_releases_all [of "sample_service 0 0x80041003 []"]
    version_name_wmi_releases_all [of "sample_service 0x800706BA 0 []"]
  by simp

text \<open>The traces of a run with one object and of a run whose query fails.\<close>

lemma version_name_wmi_sample_trace:
  "snd (version_name_wmi (sample_service 0 0 [''Microsoft Windows 10 Pro'']))
     = [Call ''version_name_wmi'', Acquire ComLibrary, Acquire WbemLocator, Acquire WbemServices,
        Acquire EnumWbemClassObject, Acquire (WbemClassObject 0), Acquire (VariantBox 0),
        Release (VariantBox 0), Release (WbemClassObject 0), Release EnumWbemClassObject,
        Release WbemServices, Release WbemLocator, Release ComLibrary]"
  by (simp add: version_name_wmi_def scope_def sample_service_def FAILED_def
      RPC_E_CHANGED_MODE_def RPC_E_TOO_LATE_def Let_def)

lemma version_name_wmi_failed_query_trace:
  "version_name_wmi (sample_service 0 0x80041003 [''Microsoft Windows 10 Pro''])
     = ([], [Call ''version_name_wmi'', Acquire ComLibrary, Acquire WbemLocator, Acquire WbemServices,
        Release WbemServices, Release WbemLocator, Release ComLibrary])"
  by (simp add: version_name_wmi_def scope_def sample_service_def FAILED_def
      RPC_E_CHANGED_MODE_def RPC_E_TOO_LATE_def Let_def)

lemma find_char:
  "find_str [c] s = (if c \<in> set s then Some (length (takeWhile (\<lambda>x. x \<noteq> c) s)) else None)"
  by (induction s) auto

lemma take_length_takeWhile: "take (length (takeWhile P s)) s = takeWhile P s"
  using takeWhile_eq_take [of P s] by simp

lemma truncate_at_char:
  "(case find_str [c] s of None \<Rightarrow> s | Some sep \<Rightarrow> take sep s) = takeWhile (\<lambda>x. x \<noteq> c) s"
proof (cases "c \<in> set s")
  case True
  then show ?thesis by (simp add: find_char take_length_takeWhile)
next
  case False
  then have whole: "takeWhile (\<lambda>x. x \<noteq> c) s = s"
    by (auto simp: takeWhile_eq_all_conv)
  from False have "find_str [c] s = None"
    by (simp add: find_char)
  then show ?thesis
    by (simp only: option.case whole)
qed

lemma version_name_wmi_result:
  assumes "query_reached w"
  shows "fst (version_name_wmi w)
    = takeWhile (\<lambda>c. c \<noteq> CHR ''|'') (fst (query_loop (narrowen_bstring w) (enumerated w) 0 []))"
  using assms
  by (auto simp add: version_name_wmi_def query_reached_def scope_def Let_def truncate_at_char
      case_prod_unfold split: if_splits)

text \<open>
  C8. When every call up to the query succeeds, the string retrieved by the loop (the
  name of the last object, or the empty string without objects) is cut at its first
  \<open>|\<close>: if it contains one, the result is the part in front of it and contains
  none; if it contains none, the result is the retrieved string.
\<close>

theorem version_name_wmi_truncates:
  assumes "query_reached w"
  shows "let ret = (if enumerated w = [] then [] else narrowen_bstring w (last (enumerated w)));
             name = fst (version_name_wmi w)
         in (CHR ''|'' \<in> set ret \<longrightarrow> (\<exists>rest. ret = name @ CHR ''|'' # rest) \<and> CHR ''|'' \<notin> set name)
          \<and> (CHR ''|'' \<notin> set ret \<longrightarrow> name = ret)"
proof -
  define ret where "ret = (if enumerated w = [] then [] else narrowen_bstring w (last (enumerated w)))"
  define name where "name = fst (version_name_wmi w)"
  have name: "name = takeWhile (\<lambda>c. c \<noteq> CHR ''|'') ret"
    unfolding name_def ret_def using assms
    by (simp add: version_name_wmi_result query_loop_result)
  have split: "ret = name @ dropWhile (\<lambda>c. c \<noteq> CHR ''|'') ret"
    unfolding name by simp
  have a: "CHR ''|'' \<notin> set name"
    unfolding name by (auto dest: set_takeWhileD)
  have b: "\<exists>rest. ret = name @ CHR ''|'' # rest" if "CHR ''|'' \<in> set ret"
  proof -
    have "dropWhile (\<lambda>c. c \<noteq> CHR ''|'') ret \<noteq> []"
      using that by auto
    then obtain x rest where d: "dropWhile (\<lambda>c. c \<noteq> CHR ''|'') ret = x # rest"
      by (cases "dropWhile (\<lambda>c. c \<noteq> CHR ''|'') ret") auto
    then have "x = CHR ''|''"
      using hd_dropWhile [of "\<lambda>c. c \<noteq> CHR ''|''" ret] by simp
    with split d show ?thesis by auto
  qed
  have c: "name = ret" if "CHR ''|'' \<notin> set ret"
    unfolding name using that by (auto simp: takeWhile_eq_all_conv)
  show ?thesis
    using a b c unfolding Let_def ret_def [symmetric] name_def [symmetric] by blast
qed

lemma before_first_separator:
  "x \<notin> set xs \<Longrightarrow> takeWhile (\<lambda>c. c \<noteq> x) (xs @ x # ys) = xs"
  by (induction xs) auto

theorem version_name_wmi_truncates_witness:
  "query_reached (sample_service 0 0
      [''Microsoft Windows Server 2019 Standard|C:'' @ [CHR 0x5C] @ ''Windows|'' @ [CHR 0x5C]
         @ ''Device'' @ [CHR 0x5C] @ ''Harddisk0''])
   \<and> fst (version_name_wmi (sample_service 0 0
      [''Microsoft Windows Server 2019 Standard|C:'' @ [CHR 0x5C] @ ''Windows|'' @ [CHR 0x5C]
         @ ''Device'' @ [CHR 0x5C] @ ''Harddisk0'']))
     = ''Microsoft Windows Server 2019 Standard''
   \<and> fst (version_name_wmi (sample_service 0 0 [''Microsoft Windows 10 Pro'']))
     = ''Microsoft Windows 10 Pro''"
proof -
  define A where "A = ''Microsoft Windows Server 2019 Standard''"
  define B where "B = ''C:'' @ [CHR 0x5C] @ ''Windows|'' @ [CHR 0x5C] @ ''Device'' @ [CHR 0x5C]
     @ ''Harddisk0''"
  define long where "long = A @ CHR ''|'' # B"
  define plain where "plain = ''Microsoft Windows 10 Pro''"
  define name where "name = (\<lambda>s. fst (version_name_wmi (sample_service 0 0 [s])))"
  have reached: "query_reached (sample_service 0 0 names)" for names
    by (simp add: query_reached_def sample_service_def FAILED_def RPC_E_CHANGED_MODE_def)
  have fact: "(CHR ''|'' \<in> set s \<longrightarrow> (\<exists>rest. s = name s @ CHR ''|'' # rest) \<and> CHR ''|'' \<notin> set (name s))
      \<and> (CHR ''|'' \<notin> set s \<longrightarrow> name s = s)" for s
    using version_name_wmi_truncates [OF reached, of "[s]"]
    by (simp add: Let_def name_def sample_service_def)
  have no_A: "CHR ''|'' \<notin> set A"
    by (simp add: A_def)
  have "CHR ''|'' \<in> set long"
    by (simp add: long_def)
  with fact [of long] obtain rest where rest: "long = name long @ CHR ''|'' # rest"
      and no: "CHR ''|'' \<notin> set (name long)"
    by blast
  from rest have "name long @ CHR ''|'' # rest = A @ CHR ''|'' # B"
    by (simp only: long_def [symmetric])
  then have "takeWhile (\<lambda>c. c \<noteq> CHR ''|'') (name long @ CHR ''|'' # rest)
      = takeWhile (\<lambda>c. c \<noteq> CHR ''|'') (A @ CHR ''|'' # B)"
    by (rule arg_cong)
  then have a: "name long = A"
    by (simp only: before_first_separator [OF no] before_first_separator [OF no_A])
  have "CHR ''|'' \<notin> set plain"
    by (simp add: plain_def)
  with fact [of plain] have b: "name plain = plain"
    by blast
  have long: "long = ''Microsoft Windows Server 2019 Standard|C:'' @ [CHR 0x5C] @ ''Windows|''
      @ [CHR 0x5C] @ ''Device'' @ [CHR 0x5C] @ ''Harddisk0''"
    by (simp add: long_def A_def B_def)
  from reached [of "[long]"] a b show ?thesis
    unfolding name_def long plain_def A_def by simp
qed

subsection \<open>The aggregator\<close>

lemma version_name_reg_calls:
  "Call ''version_name_reg'' \<in> set (snd (version_name_reg m))"
  "Call ''version_name'' \<notin> set (snd (version_name_reg m))"
  by (simp_all add: version_name_reg_def scope_def split: option.splits prod.splits)

lemma build_number_calls:
  "Call ''version_name_reg'' \<notin> set (snd (build_number m))"
  "Call ''version_name'' \<notin> set (snd (build_number m))"
  "Query ''ProductName'' \<notin> set (snd (build_number m))"
  by (simp_all add: build_number_def scope_def Let_def split: option.splits prod.splits)

lemma resolve_RtlGetVersion_legacy_name [simp]:
  "resolve_RtlGetVersion (m\<lparr>legacy_name := n\<rparr>) = resolve_RtlGetVersion m"
  by (simp add: resolve_RtlGetVersion_def GetModuleHandleA_def)

lemma query_version_legacy_name [simp]:
  "query_version static (m\<lparr>legacy_name := n\<rparr>) = query_version static m"
  by (simp add: query_version_def split: option.splits)

lemma version_name_reg_legacy_name [simp]:
  "version_name_reg (m\<lparr>legacy_name := n\<rparr>) = version_name_reg m"
  by (simp add: version_name_reg_def RegOpenKeyExA_def)

lemma OS_info_fields:
  "major_version (fst (fst (OS_info static m))) = dwMajorVersion (query_version static m)"
  "minor_version (fst (fst (OS_info static m))) = dwMinorVersion (query_version static m)"
  "kernel_build (fst (fst (OS_info static m))) = dwBuildNumber (query_version static m)"
  "patch_number (fst (fst (OS_info static m))) = fst (build_number m)"
  "family_name (fst (fst (OS_info static m))) = ''Windows NT''"
  by (simp_all add: OS_info_def Let_def case_prod_unfold)

lemma OS_info_legacy:
  assumes "dwMajorVersion (query_version static m) < 10"
  shows "full_name (fst (fst (OS_info static m))) = legacy_name m"
    and "snd (fst (OS_info static m)) = Call ''OS_info'' # Call ''version_name'' # snd (build_number m)"
  using assms by (simp_all add: OS_info_def Let_def case_prod_unfold version_name_def)

lemma OS_info_modern_trace:
  assumes "\<not> dwMajorVersion (query_version static m) < 10"
  shows "snd (fst (OS_info static m)) = Call ''OS_info'' # snd (version_name_reg m) @ snd (build_number m)"
  using assms by (simp add: OS_info_def Let_def case_prod_unfold)

lemma OS_info_modern_name:
  assumes "\<not> dwMajorVersion (query_version static m) < 10"
  shows "full_name (fst (fst (OS_info static m))) =
    (if dwMajorVersion (query_version static m) = 10
          \<and> dwMinorVersion (query_version static m) = 0
          \<and> dwBuildNumber (query_version static m) \<ge> 22000
     then (case find_str '' 10'' (fst (version_name_reg m)) of
             None \<Rightarrow> fst (version_name_reg m)
           | Some pos \<Rightarrow> (fst (version_name_reg m))[pos + 2 := CHR ''1''])
     else fst (version_name_reg m))"
  using assms by (simp add: OS_info_def Let_def case_prod_unfold)

lemma OS_info_modern_independent:
  assumes "\<not> dwMajorVersion (query_version static m) < 10"
  shows "full_name (fst (fst (OS_info static (m\<lparr>legacy_name := n\<rparr>))))
    = full_name (fst (fst (OS_info static m)))"
proof -
  have "\<not> dwMajorVersion (query_version static (m\<lparr>legacy_name := n\<rparr>)) < 10"
    using assms by simp
  from OS_info_modern_name [OF this] OS_info_modern_name [OF assms]
  show ?thesis
    by (simp split: option.splits)
qed


lemma find_str_Some:
  "find_str pat s = Some pos \<Longrightarrow>
     take (length pat) (drop pos s) = pat \<and> pos + length pat \<le> length s
     \<and> (\<forall>q<pos. take (length pat) (drop q s) \<noteq> pat)"
proof (induction s arbitrary: pos)
  case Nil
  then show ?case by (simp split: if_splits)
next
  case (Cons c cs)
  show ?case
  proof (cases "take (length pat) (c # cs) = pat")
    case True
    have "length (take (length pat) (c # cs)) \<le> length (c # cs)"
      by simp
    then have "length pat \<le> length (c # cs)"
      by (simp only: True)
    with True Cons.prems show ?thesis by simp
  next
    case False
    with Cons.prems obtain p where p: "find_str pat cs = Some p" "pos = Suc p"
      by auto
    note ih = Cons.IH [OF p(1)]
    have "take (length pat) (drop q (c # cs)) \<noteq> pat" if "q < pos" for q
    proof (cases q)
      case 0
      with False show ?thesis by simp
    next
      case (Suc q')
      with that p(2) ih show ?thesis by simp
    qed
    with ih p(2) show ?thesis by simp
  qed
qed

lemma find_str_None:
  "find_str pat s = None \<Longrightarrow> take (length pat) (drop q s) \<noteq> pat"
proof (induction s arbitrary: q)
  case Nil
  then show ?case by (auto split: if_splits)
next
  case (Cons c cs)
  then show ?case
    by (cases q) (auto split: if_splits)
qed

lemma occurs_iff:
  "(\<exists>pre post. s = pre @ pat @ post) \<longleftrightarrow> (\<exists>q. take (length pat) (drop q s) = pat)"
proof
  assume "\<exists>pre post. s = pre @ pat @ post"
  then obtain pre post where "s = pre @ pat @ post" by blast
  then have "take (length pat) (drop (length pre) s) = pat" by simp
  then show "\<exists>q. take (length pat) (drop q s) = pat" ..
next
  assume "\<exists>q. take (length pat) (drop q s) = pat"
  then obtain q where q: "take (length pat) (drop q s) = pat" ..
  have "s = take q s @ take (length pat) (drop q s) @ drop (length pat) (drop q s)"
    by (simp only: append_take_drop_id)
  with q have "s = take q s @ pat @ drop (length pat) (drop q s)" by simp
  then show "\<exists>pre post. s = pre @ pat @ post" by blast
qed

lemma find_str_occurs:
  "find_str pat s \<noteq> None \<longleftrightarrow> (\<exists>pre post. s = pre @ pat @ post)"
proof (cases "find_str pat s")
  case None
  then show ?thesis
    using find_str_None [of pat s] by (simp add: occurs_iff)
next
  case (Some pos)
  then show ?thesis
    using find_str_Some [of pat s pos] by (auto simp: occurs_iff)
qed

lemma win11_rewrite_changes:
  assumes "find_str '' 10'' name = Some pos"
  shows "name[pos + 2 := CHR ''1''] \<noteq> name"
proof -
  from find_str_Some [OF assms]
  have t: "take 3 (drop pos name) = '' 10''" and l: "pos + 3 \<le> length name"
    by (simp_all add: numeral_3_eq_3)
  have "name ! (pos + 2) = take 3 (drop pos name) ! 2"
    using l by simp
  also have "\<dots> = CHR ''0''"
    by (simp add: t)
  finally have old: "name ! (pos + 2) = CHR ''0''" .
  have "name[pos + 2 := CHR ''1''] ! (pos + 2) = CHR ''1''"
    using l by simp
  with old have "name[pos + 2 := CHR ''1''] ! (pos + 2) \<noteq> name ! (pos + 2)"
    by simp
  then show ?thesis
    by auto
qed

text \<open>
  C1. Let \<open>name\<close> be the name that the chosen resolver returned. The result differs
  from it if and only if the major version is 10, the minor version is 0, the build is
  at least 22000 and \<open>name\<close> contains \<open>'' 10''\<close>; and then the result is \<open>name\<close>
  with the one character at the first position of \<open>'' 10''\<close> plus two set to
  \<open>1\<close>.
\<close>

theorem win11_name_correction:
  "let v = query_version static m;
       name = (if dwMajorVersion v < 10 then legacy_name m else fst (version_name_reg m));
       out = full_name (fst (fst (OS_info static m)))
   in (out \<noteq> name \<longleftrightarrow>
         dwMajorVersion v = 10 \<and> dwMinorVersion v = 0 \<and> 22000 \<le> dwBuildNumber v
         \<and> (\<exists>pre post. name = pre @ '' 10'' @ post))
    \<and> (out \<noteq> name \<longrightarrow>
         (\<exists>pos. pos + 3 \<le> length name \<and> take 3 (drop pos name) = '' 10''
            \<and> (\<forall>q<pos. take 3 (drop q name) \<noteq> '' 10'')
            \<and> out = name[pos + 2 := CHR ''1'']))"
proof (cases "dwMajorVersion (query_version static m) < 10")
  case True
  then have "dwMajorVersion (query_version static m) \<noteq> 10" by auto
  with True show ?thesis
    by (simp add: Let_def OS_info_legacy)
next
  case False
  define name where "name = fst (version_name_reg m)"
  define fires where "fires \<longleftrightarrow> dwMajorVersion (query_version static m) = 10
    \<and> dwMinorVersion (query_version static m) = 0 \<and> 22000 \<le> dwBuildNumber (query_version static m)"
  have out: "full_name (fst (fst (OS_info static m))) =
      (if fires then (case find_str '' 10'' name of None \<Rightarrow> name
                      | Some pos \<Rightarrow> name[pos + 2 := CHR ''1'']) else name)"
    unfolding fires_def name_def by (rule OS_info_modern_name [OF False])
  show ?thesis
  proof (cases "find_str '' 10'' name")
    case None
    then have "\<not> (\<exists>pre post. name = pre @ '' 10'' @ post)"
      using find_str_occurs [of "'' 10''" name] by simp
    with None out False show ?thesis
      by (simp add: Let_def name_def [symmetric])
  next
    case (Some pos)
    then have occ: "\<exists>pre post. name = pre @ '' 10'' @ post"
      using find_str_occurs [of "'' 10''" name] by simp
    from find_str_Some [OF Some]
    have first: "pos + 3 \<le> length name \<and> take 3 (drop pos name) = '' 10''
        \<and> (\<forall>q<pos. take 3 (drop q name) \<noteq> '' 10'')"
      by (simp add: numeral_3_eq_3)
    show ?thesis
    proof (cases fires)
      case True
      then have "full_name (fst (fst (OS_info static m))) = name[pos + 2 := CHR ''1'']"
        using out Some by simp
      moreover have "name[pos + 2 := CHR ''1''] \<noteq> name"
        by (rule win11_rewrite_changes [OF Some])
      ultimately show ?thesis
        using True occ first False
        unfolding Let_def name_def [symmetric] fires_def by auto
    next
      case no: False
      then have "full_name (fst (fst (OS_info static m))) = name"
        using out by simp
      then show ?thesis
        using no False unfolding Let_def name_def [symmetric] fires_def by auto
    qed
  qed
qed

theorem win11_name_correction_witness:
  "full_name (fst (fst (OS_info None
      (sample_machine (10, 0, 22000) [(''ProductName'', REG_SZ ''Windows 10 Pro'')] []))))
     = ''Windows 11 Pro''
   \<and> full_name (fst (fst (OS_info None
      (sample_machine (10, 0, 19041) [(''ProductName'', REG_SZ ''Windows 10 Pro'')] []))))
     = ''Windows 10 Pro''"
proof -
  have occurs: "''Windows 10 Pro'' = ''Windows'' @ '' 10'' @ '' Pro''"
    by simp
  have first: "pos = 7"
    if "take 3 (drop pos ''Windows 10 Pro'') = '' 10''"
      and "\<forall>q<pos. take 3 (drop q ''Windows 10 Pro'') \<noteq> '' 10''" for pos
  proof -
    have "take 3 (drop 7 ''Windows 10 Pro'') = '' 10''"
      by simp
    with that(2) have "\<not> 7 < pos"
      by blast
    then have "pos = 0 \<or> pos = 1 \<or> pos = 2 \<or> pos = 3 \<or> pos = 4 \<or> pos = 5 \<or> pos = 6 \<or> pos = 7"
      by arith
    with that(1) show ?thesis
      by auto
  qed
  define N where "N = ''Windows 10 Pro''"
  define M where "M = (\<lambda>build. sample_machine (10, 0, build) [(''ProductName'', REG_SZ N)] [])"
  define out where "out = (\<lambda>build. full_name (fst (fst (OS_info None (M build)))))"
  have fact: "let v = query_version None (M build);
        name = (if dwMajorVersion v < 10 then legacy_name (M build)
                else fst (version_name_reg (M build)));
        out = full_name (fst (fst (OS_info None (M build))))
      in (out \<noteq> name \<longleftrightarrow>
            dwMajorVersion v = 10 \<and> dwMinorVersion v = 0 \<and> 22000 \<le> dwBuildNumber v
            \<and> (\<exists>pre post. name = pre @ '' 10'' @ post))
       \<and> (out \<noteq> name \<longrightarrow>
            (\<exists>pos. pos + 3 \<le> length name \<and> take 3 (drop pos name) = '' 10''
               \<and> (\<forall>q<pos. take 3 (drop q name) \<noteq> '' 10'')
               \<and> out = name[pos + 2 := CHR ''1'']))" for build
    by (rule win11_name_correction)
  have fact': "(out build \<noteq> N \<longleftrightarrow> 22000 \<le> build \<and> (\<exists>pre post. N = pre @ '' 10'' @ post))
       \<and> (out build \<noteq> N \<longrightarrow>
            (\<exists>pos. pos + 3 \<le> length N \<and> take 3 (drop pos N) = '' 10''
               \<and> (\<forall>q<pos. take 3 (drop q N) \<noteq> '' 10'')
               \<and> out build = N[pos + 2 := CHR ''1'']))" for build
    using fact [of build]
    by (simp add: Let_def M_def out_def sample_query_version sample_version_name_reg)
  have "\<exists>pre post. N = pre @ '' 10'' @ post"
    unfolding N_def using occurs by blast
  then have "out 22000 \<noteq> N"
    using fact' [of 22000] by simp
  then obtain pos where pos: "take 3 (drop pos N) = '' 10''"
      "\<forall>q<pos. take 3 (drop q N) \<noteq> '' 10''" "out 22000 = N[pos + 2 := CHR ''1'']"
    using fact' [of 22000] by blast
  from pos(1,2) have "pos = 7"
    unfolding N_def by (rule first)
  with pos(3) have a: "out 22000 = ''Windows 11 Pro''"
    by (simp add: N_def)
  have b: "out 19041 = ''Windows 10 Pro''"
    using fact' [of 19041] by (simp add: N_def)
  from a b show ?thesis
    unfolding out_def M_def N_def ..
qed

text \<open>
  C5. For a major version below 10 the name is what the legacy resolver
  \<^verbatim>\<open>version_name\<close> returns, that resolver is called and the registry resolver
  \<^verbatim>\<open>version_name_reg\<close> is not (\<^verbatim>\<open>ProductName\<close> is never queried); for a major version of
  10 or more \<^verbatim>\<open>version_name_reg\<close> is called, \<^verbatim>\<open>version_name\<close> is not, the name is
  what \<^verbatim>\<open>version_name_reg\<close> returns (with the one character rewritten when the version
  is 10.0 with a build of at least 22000 and the name contains \<open>'' 10''\<close>), and it
  does not depend on what the legacy resolver would return.
\<close>

theorem name_resolver_by_major_version:
  "(major_version (fst (fst (OS_info static m))) < 10 \<longrightarrow>
      full_name (fst (fst (OS_info static m))) = legacy_name m
      \<and> Call ''version_name'' \<in> set (snd (fst (OS_info static m)))
      \<and> Call ''version_name_reg'' \<notin> set (snd (fst (OS_info static m)))
      \<and> Query ''ProductName'' \<notin> set (snd (fst (OS_info static m))))
   \<and> (10 \<le> major_version (fst (fst (OS_info static m))) \<longrightarrow>
      Call ''version_name_reg'' \<in> set (snd (fst (OS_info static m)))
      \<and> Call ''version_name'' \<notin> set (snd (fst (OS_info static m)))
      \<and> full_name (fst (fst (OS_info static m))) =
          (if major_version (fst (fst (OS_info static m))) = 10
                \<and> minor_version (fst (fst (OS_info static m))) = 0
                \<and> 22000 \<le> kernel_build (fst (fst (OS_info static m)))
           then (case find_str '' 10'' (fst (version_name_reg m)) of
                   None \<Rightarrow> fst (version_name_reg m)
                 | Some pos \<Rightarrow> (fst (version_name_reg m))[pos + 2 := CHR ''1''])
           else fst (version_name_reg m))
      \<and> (\<forall>n. full_name (fst (fst (OS_info static (m\<lparr>legacy_name := n\<rparr>))))
               = full_name (fst (fst (OS_info static m)))))"
proof (cases "dwMajorVersion (query_version static m) < 10")
  case True
  then show ?thesis
    by (simp add: OS_info_fields OS_info_legacy build_number_calls not_le [symmetric])
next
  case False
  have name: "full_name (fst (fst (OS_info static m))) =
      (if dwMajorVersion (query_version static m) = 10
            \<and> dwMinorVersion (query_version static m) = 0
            \<and> 22000 \<le> dwBuildNumber (query_version static m)
       then (case find_str '' 10'' (fst (version_name_reg m)) of
               None \<Rightarrow> fst (version_name_reg m)
             | Some pos \<Rightarrow> (fst (version_name_reg m))[pos + 2 := CHR ''1''])
       else fst (version_name_reg m))"
    by (rule OS_info_modern_name [OF False])
  have rest: "Call ''version_name_reg'' \<in> set (snd (fst (OS_info static m)))
      \<and> Call ''version_name'' \<notin> set (snd (fst (OS_info static m)))
      \<and> (\<forall>n. full_name (fst (fst (OS_info static (m\<lparr>legacy_name := n\<rparr>))))
               = full_name (fst (fst (OS_info static m))))"
    using False
    by (simp add: OS_info_modern_trace OS_info_modern_independent
        version_name_reg_calls build_number_calls)
  from False have "\<not> major_version (fst (fst (OS_info static m))) < 10"
    by (simp add: OS_info_fields)
  with name rest show ?thesis
    by (simp only: OS_info_fields) simp
qed

theorem name_resolver_by_major_version_witness:
  "full_name (fst (fst (OS_info None (sample_machine (6, 3, 9600)
        [(''ProductName'', REG_SZ ''Windows 10 Pro'')] ''Windows 8.1'')))) = ''Windows 8.1''
   \<and> Call ''version_name_reg'' \<notin> set (snd (fst (OS_info None (sample_machine (6, 3, 9600)
        [(''ProductName'', REG_SZ ''Windows 10 Pro'')] ''Windows 8.1''))))
   \<and> full_name (fst (fst (OS_info None (sample_machine (10, 0, 19041)
        [(''ProductName'', REG_SZ ''Windows 10 Pro'')] ''Windows 8.1'')))) = ''Windows 10 Pro''
   \<and> Call ''version_name'' \<notin> set (snd (fst (OS_info None (sample_machine (10, 0, 19041)
        [(''ProductName'', REG_SZ ''Windows 10 Pro'')] ''Windows 8.1''))))
   \<and> Call ''version_name_reg'' \<in> set (snd (fst (OS_info None (sample_machine (10, 0, 19041)
        [(''ProductName'', REG_SZ ''Windows 10 Pro'')] ''Windows 8.1''))))"
proof -
  define old where "old = sample_machine (6, 3, 9600)
        [(''ProductName'', REG_SZ ''Windows 10 Pro'')] ''Windows 8.1''"
  define new where "new = sample_machine (10, 0, 19041)
        [(''ProductName'', REG_SZ ''Windows 10 Pro'')] ''Windows 8.1''"
  have old_version: "major_version (fst (fst (OS_info None old))) = 6"
    by (simp add: old_def OS_info_fields sample_query_version)
  have new_version: "major_version (fst (fst (OS_info None new))) = 10"
      "minor_version (fst (fst (OS_info None new))) = 0"
      "kernel_build (fst (fst (OS_info None new))) = 19041"
    by (simp_all add: new_def OS_info_fields sample_query_version)
  have legacy: "legacy_name old = ''Windows 8.1''"
    by (simp add: old_def sample_machine_def)
  have reg: "fst (version_name_reg new) = ''Windows 10 Pro''"
    by (simp add: new_def sample_version_name_reg)
  have a: "full_name (fst (fst (OS_info None old))) = ''Windows 8.1''
      \<and> Call ''version_name_reg'' \<notin> set (snd (fst (OS_info None old)))"
    using name_resolver_by_major_version [of None old]
    by (simp add: old_version legacy)
  have b: "full_name (fst (fst (OS_info None new))) = ''Windows 10 Pro''
      \<and> Call ''version_name'' \<notin> set (snd (fst (OS_info None new)))
      \<and> Call ''version_name_reg'' \<in> set (snd (fst (OS_info None new)))"
    using name_resolver_by_major_version [of None new]
    by (simp add: new_version reg)
  from a b show ?thesis
    unfolding old_def new_def by simp
qed

text \<open>
  C9. A second call of \<^verbatim>\<open>OS_info\<close> on the same machine, made with the static that the
  first call left behind, returns the same structure and the same trace, and leaves
  the static as it is.
\<close>

theorem OS_info_repeatable:
  "fst (OS_info (snd (OS_info static m)) m) = fst (OS_info static m)
   \<and> snd (OS_info (snd (OS_info static m)) m) = snd (OS_info static m)"
  by (simp add: OS_info_def query_version_def Let_def case_prod_unfold split: option.splits)

theorem OS_info_repeatable_witness:
  "fst (OS_info (snd (OS_info None (sample_machine (10, 0, 19041)
        [(''ProductName'', REG_SZ ''Windows 10 Pro''), (''UBR'', REG_DWORD 345)] []))) (sample_machine (10, 0, 19041)
        [(''ProductName'', REG_SZ ''Windows 10 Pro''), (''UBR'', REG_DWORD 345)] []))
     = fst (OS_info None (sample_machine (10, 0, 19041)
        [(''ProductName'', REG_SZ ''Windows 10 Pro''), (''UBR'', REG_DWORD 345)] []))"
  using OS_info_repeatable [of None "sample_machine (10, 0, 19041)
        [(''ProductName'', REG_SZ ''Windows 10 Pro''), (''UBR'', REG_DWORD 345)] []"]
  by (rule conjunct1)

text \<open>
  C3, as the code has it. If \<^verbatim>\<open>pRtlGetVersion\<close> is null, the three version numbers are
  0, and since 0 is below 10 the name comes from the legacy resolver
  \<^verbatim>\<open>version_name\<close>; \<^verbatim>\<open>version_name_reg\<close> is not called and \<^verbatim>\<open>ProductName\<close> is not queried.
\<close>

theorem unresolved_version_uses_legacy:
  assumes "(case static of None \<Rightarrow> resolve_RtlGetVersion m | Some p \<Rightarrow> p) = None"
  shows "major_version (fst (fst (OS_info static m))) = 0
     \<and> minor_version (fst (fst (OS_info static m))) = 0
     \<and> kernel_build (fst (fst (OS_info static m))) = 0
     \<and> full_name (fst (fst (OS_info static m))) = legacy_name m
     \<and> Call ''version_name'' \<in> set (snd (fst (OS_info static m)))
     \<and> Call ''version_name_reg'' \<notin> set (snd (fst (OS_info static m)))
     \<and> Query ''ProductName'' \<notin> set (snd (fst (OS_info static m)))"
proof -
  have v: "query_version static m = \<lparr>dwMajorVersion = 0, dwMinorVersion = 0, dwBuildNumber = 0\<rparr>"
    using assms by (simp add: query_version_def Let_def)
  then have "dwMajorVersion (query_version static m) < 10"
    by simp
  then show ?thesis
    using v by (simp add: OS_info_fields OS_info_legacy build_number_calls)
qed

theorem unresolved_version_uses_legacy_witness:
  "full_name (fst (fst (OS_info None ((sample_machine (10, 0, 22000)
        [(''ProductName'', REG_SZ ''Windows 10 Pro'')] ''Windows 8.1'')\<lparr>modules := Map.empty\<rparr>))))
     = ''Windows 8.1''
   \<and> major_version (fst (fst (OS_info None ((sample_machine (10, 0, 22000)
        [(''ProductName'', REG_SZ ''Windows 10 Pro'')] ''Windows 8.1'')\<lparr>modules := Map.empty\<rparr>)))) = 0
   \<and> Call ''version_name_reg'' \<notin> set (snd (fst (OS_info None ((sample_machine (10, 0, 22000)
        [(''ProductName'', REG_SZ ''Windows 10 Pro'')] ''Windows 8.1'')\<lparr>modules := Map.empty\<rparr>))))"
  using unresolved_version_uses_legacy [where static = None and m = "(sample_machine (10, 0, 22000)
        [(''ProductName'', REG_SZ ''Windows 10 Pro'')] ''Windows 8.1'')\<lparr>modules := Map.empty\<rparr>"]
  by (simp add: resolve_RtlGetVersion_def GetModuleHandleA_def sample_machine_def)

text \<open>
  C3, as it is stated, says that with \<^verbatim>\<open>pRtlGetVersion\<close> null the registry resolver is
  still tried. On a machine without \<^verbatim>\<open>ntdll.dll\<close> among its modules, whose registry holds
  \<^verbatim>\<open>ProductName\<close>, the pointer is null, \<^verbatim>\<open>version_name_reg\<close> is not called and
  \<^verbatim>\<open>ProductName\<close> is not queried.
\<close>

theorem unresolved_version_counterexample:
  "resolve_RtlGetVersion ((sample_machine (10, 0, 22000)
        [(''ProductName'', REG_SZ ''Windows 10 Pro'')] ''Windows 8.1'')\<lparr>modules := Map.empty\<rparr>) = None
   \<and> Call ''version_name_reg'' \<notin> set (snd (fst (OS_info None ((sample_machine (10, 0, 22000)
        [(''ProductName'', REG_SZ ''Windows 10 Pro'')] ''Windows 8.1'')\<lparr>modules := Map.empty\<rparr>))))
   \<and> Query ''ProductName'' \<notin> set (snd (fst (OS_info None ((sample_machine (10, 0, 22000)
        [(''ProductName'', REG_SZ ''Windows 10 Pro'')] ''Windows 8.1'')\<lparr>modules := Map.empty\<rparr>))))"
  by (simp add: OS_info_def query_version_def resolve_RtlGetVersion_def GetModuleHandleA_def
      version_name_def build_number_def scope_def RegOpenKeyExA_def RegQueryValueExA_def
      sample_machine_def Let_def)

end
